theory Spec2Isabelle
  imports Main "HOL-Library.Word"
begin

unbundle bit_operations_syntax

section \<open>Strings and buffers as the TypeScript sources use them\<close>

text \<open>
  A JavaScript string is modelled as a \<^typ>\<open>string\<close> (a list of 8-bit characters); the
  texts the analysed functions inspect (opcode names, hexadecimal data, signatures,
  revert messages) are ASCII. A \<open>Buffer\<close> is a list of bytes.
\<close>

type_synonym byte = "8 word"

definition startsWith :: "string \<Rightarrow> string \<Rightarrow> bool" where
  "startsWith s p = (take (length p) s = p)"

definition endsWith :: "string \<Rightarrow> string \<Rightarrow> bool" where
  "endsWith s p = (length p \<le> length s \<and> drop (length s - length p) s = p)"

text \<open>\<open>s.indexOf(pat)\<close>: the first position at which \<open>pat\<close> occurs; \<open>None\<close> is -1.\<close>

fun indexOf :: "string \<Rightarrow> string \<Rightarrow> nat option" where
  "indexOf [] pat = (if pat = [] then Some 0 else None)"
| "indexOf (c # s) pat =
     (if startsWith (c # s) pat then Some 0 else map_option Suc (indexOf s pat))"

text \<open>\<open>s.replace(pat, rep)\<close> with a string pattern: only the first occurrence is replaced.\<close>

definition replace_first :: "string \<Rightarrow> string \<Rightarrow> string \<Rightarrow> string" where
  "replace_first pat rep s =
     (case indexOf s pat of
        None \<Rightarrow> s
      | Some i \<Rightarrow> take i s @ rep @ drop (i + length pat) s)"

text \<open>\<open>buf.slice(start, end)\<close>: both ends are clamped to the buffer, it never reads outside.\<close>

definition buffer_slice :: "'a list \<Rightarrow> nat \<Rightarrow> nat \<Rightarrow> 'a list" where
  "buffer_slice buf start end' = take (end' - start) (drop start buf)"

definition is_digit :: "char \<Rightarrow> bool" where
  "is_digit c = (c \<in> set ''0123456789'')"

definition digit_val :: "char \<Rightarrow> nat" where
  "digit_val c = of_char c - 48"

text \<open>JavaScript white space, as far as 8-bit characters go: TAB, LF, VT, FF, CR, space
  and the no-break space.\<close>

definition is_space :: "char \<Rightarrow> bool" where
  "is_space c = (c \<in> set [CHR 0x09, CHR 0x0A, CHR 0x0B, CHR 0x0C, CHR 0x0D, CHR 0x20, CHR 0xA0])"

text \<open>
  \<open>parseInt(s, 10)\<close> on unsigned text: leading white space is skipped, the longest run of
  decimal digits is read, and \<open>None\<close> stands for \<open>NaN\<close> (no digit). Opcode names carry no
  sign, so a leading sign is read as "no digit" here.
\<close>

definition parseInt10 :: "string \<Rightarrow> nat option" where
  "parseInt10 s =
     (let ds = takeWhile is_digit (dropWhile is_space s)
      in if ds = [] then None else Some (foldl (\<lambda>a c. 10 * a + digit_val c) 0 ds))"

definition hex_digit :: "nat \<Rightarrow> char" where
  "hex_digit n = ''0123456789abcdef'' ! (n mod 16)"

text \<open>\<open>n.toString(16)\<close> for a non-negative integer.\<close>

fun toString16 :: "nat \<Rightarrow> string" where
  "toString16 n = (if n < 16 then [hex_digit n] else toString16 (n div 16) @ [hex_digit (n mod 16)])"

definition toUpperCase_char :: "char \<Rightarrow> char" where
  "toUpperCase_char c =
     (case map_of (zip ''abcdefghijklmnopqrstuvwxyz'' ''ABCDEFGHIJKLMNOPQRSTUVWXYZ'') c of
        Some u \<Rightarrow> u | None \<Rightarrow> c)"

definition toLowerCase_char :: "char \<Rightarrow> char" where
  "toLowerCase_char c =
     (case map_of (zip ''ABCDEFGHIJKLMNOPQRSTUVWXYZ'' ''abcdefghijklmnopqrstuvwxyz'') c of
        Some l \<Rightarrow> l | None \<Rightarrow> c)"

definition padStart :: "nat \<Rightarrow> char \<Rightarrow> string \<Rightarrow> string" where
  "padStart n c s = replicate (n - length s) c @ s"

section \<open>The opcode parser (modules/evm-opcodes.ts, class EVM)\<close>

record EvmOpcode =
  op_name :: string
  op_opcode :: byte
  op_pc :: nat
  op_pushData :: "byte list option"

text \<open>The private fields of the class: the decoded buffer and the cached opcode list.\<close>

record EVM =
  evm_code :: "byte list"
  evm_opcodes :: "EvmOpcode list"

definition opcodeMap :: "(byte \<times> string) list" where
  "opcodeMap =
     [(0x60, ''PUSH1''), (0x61, ''PUSH2''), (0x62, ''PUSH3''), (0x63, ''PUSH4''),
      (0x64, ''PUSH5''), (0x65, ''PUSH6''), (0x66, ''PUSH7''), (0x67, ''PUSH8''),
      (0x68, ''PUSH9''), (0x69, ''PUSH10''), (0x6A, ''PUSH11''), (0x6B, ''PUSH12''),
      (0x6C, ''PUSH13''), (0x6D, ''PUSH14''), (0x6E, ''PUSH15''), (0x6F, ''PUSH16''),
      (0x70, ''PUSH17''), (0x71, ''PUSH18''), (0x72, ''PUSH19''), (0x73, ''PUSH20''),
      (0x74, ''PUSH21''), (0x75, ''PUSH22''), (0x76, ''PUSH23''), (0x77, ''PUSH24''),
      (0x78, ''PUSH25''), (0x79, ''PUSH26''), (0x7A, ''PUSH27''), (0x7B, ''PUSH28''),
      (0x7C, ''PUSH29''), (0x7D, ''PUSH30''), (0x7E, ''PUSH31''), (0x7F, ''PUSH32''),
      (0x00, ''STOP''), (0x01, ''ADD''), (0x02, ''MUL''), (0x03, ''SUB''),
      (0x50, ''POP''), (0x51, ''MLOAD''), (0x52, ''MSTORE''), (0x53, ''MSTORE8''),
      (0x54, ''SLOAD''), (0x55, ''SSTORE''), (0x56, ''JUMP''), (0x57, ''JUMPI''),
      (0x58, ''PC''), (0x59, ''MSIZE''), (0x5A, ''GAS''), (0x5B, ''JUMPDEST''),
      (0xF0, ''CREATE''), (0xF1, ''CALL''), (0xF2, ''CALLCODE''), (0xF3, ''RETURN''),
      (0xF4, ''DELEGATECALL''), (0xFA, ''STATICCALL''), (0xFD, ''REVERT''),
      (0xFF, ''SELFDESTRUCT'')]"

text \<open>\<open>getOpcodeInfo(opcode).name\<close>: the table entry, or the byte in upper-case hexadecimal.\<close>

definition getOpcodeInfo :: "byte \<Rightarrow> string" where
  "getOpcodeInfo b =
     (case map_of opcodeMap b of
        Some n \<Rightarrow> n
      | None \<Rightarrow> ''0x'' @ padStart 2 (CHR ''0'') (map toUpperCase_char (toString16 (unat b))))"

text \<open>
  One pass through the body of the \<open>for\<close> loop of \<open>getOpcodes\<close> at program counter \<open>pc\<close>
  (which the loop condition keeps below the length): the entry pushed, and the program
  counter with which the body ends, before the loop's own \<open>pc++\<close>.
\<close>

definition loop_body :: "byte list \<Rightarrow> nat \<Rightarrow> EvmOpcode \<times> nat" where
  "loop_body buf pc =
     (let opcodeByte = buf ! pc;
          opcodeInfo = getOpcodeInfo opcodeByte;
          currentOp = \<lparr>op_name = opcodeInfo, op_opcode = opcodeByte, op_pc = pc,
                       op_pushData = None\<rparr>
      in if startsWith opcodeInfo ''PUSH'' then
           (case parseInt10 (replace_first ''PUSH'' '''' opcodeInfo) of
              None \<Rightarrow> (currentOp, pc)
            | Some pushSize \<Rightarrow>
                if pc + pushSize < length buf
                then (currentOp\<lparr>op_pushData := Some (buffer_slice buf (pc + 1) (pc + pushSize + 1))\<rparr>,
                      pc + pushSize)
                else (currentOp, pc))
         else (currentOp, pc))"

text \<open>The \<open>for\<close> loop: \<open>ops\<close> is \<open>this.opcodes\<close>, to which every pass appends its entry.\<close>

function getOpcodes_loop :: "byte list \<Rightarrow> nat \<Rightarrow> EvmOpcode list \<Rightarrow> EvmOpcode list" where
  "getOpcodes_loop buf pc ops =
     (if pc < length buf
      then getOpcodes_loop buf (Suc (snd (loop_body buf pc))) (ops @ [fst (loop_body buf pc)])
      else ops)"
  by pat_completeness auto
termination
  by (relation "measure (\<lambda>(buf, pc, ops). length buf - pc)")
     (auto simp: loop_body_def Let_def split: option.splits)

text \<open>
  \<open>getOpcodes()\<close>: the returned list and the object after the call. A non-empty cached list
  is returned as it is; otherwise the loop fills \<open>this.opcodes\<close>.
\<close>

definition getOpcodes :: "EVM \<Rightarrow> EvmOpcode list \<times> EVM" where
  "getOpcodes this =
     (if length (evm_opcodes this) > 0 then (evm_opcodes this, this)
      else (let ops = getOpcodes_loop (evm_code this) 0 (evm_opcodes this)
            in (ops, this\<lparr>evm_opcodes := ops\<rparr>)))"

text \<open>
  The instruction sequence the loop produces from \<open>pc\<close> on, as a predicate on the list:
  every element is the entry of the pass at the program counter the previous pass left.
\<close>

fun chain :: "byte list \<Rightarrow> nat \<Rightarrow> EvmOpcode list \<Rightarrow> bool" where
  "chain buf pc [] = (length buf \<le> pc)"
| "chain buf pc (e # es) =
     (pc < length buf \<and> e = fst (loop_body buf pc) \<and> chain buf (Suc (snd (loop_body buf pc))) es)"

section \<open>Classifying signatures (helpers/contract-utils.ts)\<close>

text \<open>
  \<open>isCallableSignature(signature: string | undefined)\<close>: \<open>None\<close> is \<open>undefined\<close>. The guard
  \<open>!signature\<close> holds for \<open>undefined\<close> and for the empty string.
\<close>

definition isCallableSignature :: "string option \<Rightarrow> bool" where
  "isCallableSignature signature =
     (case signature of
        None \<Rightarrow> True
      | Some s \<Rightarrow> if s = [] then True else endsWith s ''()'')"

text \<open>\<open>s.split(sep)\<close> for a separator of one character: the pieces between the separators.\<close>

fun split_char :: "char \<Rightarrow> string \<Rightarrow> string list" where
  "split_char sep [] = [[]]"
| "split_char sep (c # cs) =
     (if c = sep then [] # split_char sep cs
      else (case split_char sep cs of
              [] \<Rightarrow> [[c]]
            | w # ws \<Rightarrow> (c # w) # ws))"

text \<open>\<open>extractFunctionName\<close>; the array \<open>split\<close> returns is never empty, so \<open>[0]\<close> exists.\<close>

definition extractFunctionName :: "string \<Rightarrow> string" where
  "extractFunctionName signature =
     (if CHR ''('' \<in> set signature
      then (case split_char (CHR ''('') signature of [] \<Rightarrow> [] | w # ws \<Rightarrow> w)
      else signature)"

section \<open>Parallel calls and revert reasons (groupcall/groupcall-viem.ts)\<close>





definition toLowerCase :: "string \<Rightarrow> string" where
  "toLowerCase s = map toLowerCase_char s"









section \<open>Resolving signatures (helpers/signature-resolver.ts and the loop of processUserContract)\<close>

text \<open>
  The two lookup services, as the resolver sees them. A request fails (network error,
  unreadable JSON, a missing field on the way) or delivers the part of the JSON the
  code reads: for OpenChain the value of \<open>data.result.function[selector]\<close>, the names of
  its entries (\<open>None\<close> when it is missing or null); for 4byte the \<open>text_signature\<close>s of
  \<open>data.results\<close> (\<open>None\<close> when missing).
\<close>

datatype fetch_error = FetchError








section \<open>The library functions the decoder and the proxy resolver call (viem)\<close>

text \<open>
  \<open>decodeAbiParameters\<close>, \<open>getAddress\<close> and the client requests belong to the library viem,
  not to this repository. They are modelled here from the library's behaviour, as far as
  the calls of the repository reach: what a call returns, and when it throws. A thrown
  error is a value of the type \<open>js_error\<close>, and a call that may throw has a result of
  type \<open>js_error + 'a\<close>.
\<close>

datatype js_error =
    InvalidHexError
  | AbiDecodingZeroDataError
  | AbiDecodingDataSizeTooSmallError
  | PositionOutOfBoundsError
  | InvalidAddressError
  | RequestError

text \<open>Sequencing of calls that may throw, and \<open>try { ... } catch { ... }\<close>.\<close>

definition and_then :: "'e + 'a \<Rightarrow> ('a \<Rightarrow> 'e + 'b) \<Rightarrow> 'e + 'b" where
  "and_then m f = (case m of Inl e \<Rightarrow> Inl e | Inr v \<Rightarrow> f v)"

definition try_catch :: "'e + 'a \<Rightarrow> ('e \<Rightarrow> 'e + 'a) \<Rightarrow> 'e + 'a" where
  "try_catch body handler = (case body of Inl e \<Rightarrow> handler e | Inr v \<Rightarrow> Inr v)"

subsection \<open>Keccak-256, for the checksum of an address\<close>

text \<open>
  The permutation Keccak-f[1600] on a state of 25 lanes of 64 bits (the lane (x, y) at
  index x + 5 y), with the rate of 136 bytes and the padding 01 .. 80 of the original
  Keccak; the digest is the first 32 bytes of the state after the last block.
\<close>

type_synonym lane = "64 word"

definition round_constants :: "lane list" where
  "round_constants =
     [0x0000000000000001, 0x0000000000008082, 0x800000000000808A, 0x8000000080008000,
      0x000000000000808B, 0x0000000080000001, 0x8000000080008081, 0x8000000000008009,
      0x000000000000008A, 0x0000000000000088, 0x0000000080008009, 0x000000008000000A,
      0x000000008000808B, 0x800000000000008B, 0x8000000000008089, 0x8000000000008003,
      0x8000000000008002, 0x8000000000000080, 0x000000000000800A, 0x800000008000000A,
      0x8000000080008081, 0x8000000000008080, 0x0000000080000001, 0x8000000080008008]"

text \<open>The rotation of the lane (x, y), at index x + 5 y.\<close>

definition rotation_offsets :: "nat list" where
  "rotation_offsets =
     [0, 1, 62, 28, 27,
      36, 44, 6, 55, 20,
      3, 10, 43, 25, 39,
      41, 45, 15, 21, 8,
      18, 2, 61, 56, 14]"

definition rotl64 :: "nat \<Rightarrow> lane \<Rightarrow> lane" where
  "rotl64 n w = push_bit n w OR drop_bit (64 - n) w"

definition theta :: "lane list \<Rightarrow> lane list" where
  "theta a =
     (let c = map (\<lambda>x. a ! x XOR a ! (x + 5) XOR a ! (x + 10) XOR a ! (x + 15) XOR a ! (x + 20))
                [0 ..< 5];
          d = map (\<lambda>x. c ! ((x + 4) mod 5) XOR rotl64 1 (c ! ((x + 1) mod 5))) [0 ..< 5]
      in map (\<lambda>i. a ! i XOR d ! (i mod 5)) [0 ..< 25])"

definition rho_pi :: "lane list \<Rightarrow> lane list" where
  "rho_pi a =
     map (\<lambda>j. let x = (j mod 5 + 3 * (j div 5)) mod 5; y = j mod 5
               in rotl64 (rotation_offsets ! (x + 5 * y)) (a ! (x + 5 * y))) [0 ..< 25]"

definition chi :: "lane list \<Rightarrow> lane list" where
  "chi b =
     map (\<lambda>i. b ! i XOR (NOT (b ! ((i mod 5 + 1) mod 5 + 5 * (i div 5)))
                           AND b ! ((i mod 5 + 2) mod 5 + 5 * (i div 5)))) [0 ..< 25]"

definition iota :: "lane \<Rightarrow> lane list \<Rightarrow> lane list" where
  "iota rc a = a[0 := a ! 0 XOR rc]"

definition keccak_round :: "lane \<Rightarrow> lane list \<Rightarrow> lane list" where
  "keccak_round rc a = iota rc (chi (rho_pi (theta a)))"

definition keccak_f :: "lane list \<Rightarrow> lane list" where
  "keccak_f a = fold keccak_round round_constants a"

definition lane_of_bytes :: "byte list \<Rightarrow> lane" where
  "lane_of_bytes bs = foldr (\<lambda>b acc. ucast b OR push_bit 8 acc) bs 0"

definition bytes_of_lane :: "lane \<Rightarrow> byte list" where
  "bytes_of_lane w = map (\<lambda>k. ucast (drop_bit (8 * k) w)) [0 ..< 8]"

definition keccak_pad :: "byte list \<Rightarrow> byte list" where
  "keccak_pad m =
     (let k = 136 - (length m mod 136)
      in if k = 1 then m @ [0x81]
         else m @ [0x01] @ replicate (k - 2) 0 @ [0x80])"

fun chunks :: "nat \<Rightarrow> 'a list \<Rightarrow> 'a list list" where
  "chunks n [] = []"
| "chunks n (x # xs) = (if n = 0 then [] else take n (x # xs) # chunks n (drop n (x # xs)))"

definition absorb :: "byte list \<Rightarrow> lane list \<Rightarrow> lane list" where
  "absorb block a =
     keccak_f (map (\<lambda>i. if i < 17 then a ! i XOR lane_of_bytes (take 8 (drop (8 * i) block))
                          else a ! i) [0 ..< 25])"

definition keccak256 :: "byte list \<Rightarrow> byte list" where
  "keccak256 m =
     concat (map bytes_of_lane (take 4 (fold absorb (chunks 136 (keccak_pad m)) (replicate 25 0))))"

subsection \<open>Hexadecimal text, addresses\<close>

definition charCodeToBase16 :: "char \<Rightarrow> nat option" where
  "charCodeToBase16 c =
     map_of (zip ''0123456789abcdefABCDEF''
                 [0, 1, 2, 3, 4, 5, 6, 7, 8, 9, 10, 11, 12, 13, 14, 15, 10, 11, 12, 13, 14, 15]) c"

fun hex_pairs :: "string \<Rightarrow> js_error + byte list" where
  "hex_pairs [] = Inr []"
| "hex_pairs [c] = Inl InvalidHexError"
| "hex_pairs (l # r # cs) =
     (case (charCodeToBase16 l, charCodeToBase16 r) of
        (Some nibbleLeft, Some nibbleRight) \<Rightarrow>
          (case hex_pairs cs of
             Inl e \<Rightarrow> Inl e
           | Inr bytes \<Rightarrow> Inr (of_nat (nibbleLeft * 16 + nibbleRight) # bytes))
      | _ \<Rightarrow> Inl InvalidHexError)"

text \<open>
  \<open>hexToBytes\<close>: the two characters of the prefix are dropped unread, an odd number of
  digits gets a leading zero, and a character that is no hexadecimal digit throws.
\<close>

definition hexToBytes :: "string \<Rightarrow> js_error + byte list" where
  "hexToBytes hex =
     (let hexString = drop 2 hex
      in hex_pairs (if odd (length hexString) then CHR ''0'' # hexString else hexString))"

definition bytesToHex :: "byte list \<Rightarrow> string" where
  "bytesToHex bytes =
     ''0x'' @ concat (map (\<lambda>b. [hex_digit (unat b div 16), hex_digit (unat b mod 16)]) bytes)"

definition bytesToBigInt :: "byte list \<Rightarrow> int" where
  "bytesToBigInt bytes = foldl (\<lambda>acc b. 256 * acc + uint b) 0 bytes"

definition stringToBytes :: "string \<Rightarrow> byte list" where
  "stringToBytes s = map (\<lambda>c. of_nat (of_char c)) s"

definition bytesToString :: "byte list \<Rightarrow> string" where
  "bytesToString bytes = map (\<lambda>b. char_of (unat b)) bytes"


text \<open>The i-th hexadecimal digit of the hash, counted from its first byte.\<close>

definition hash_nibble :: "byte list \<Rightarrow> nat \<Rightarrow> nat" where
  "hash_nibble hash i =
     (if even i then unat (hash ! (i div 2)) div 16 else unat (hash ! (i div 2)) mod 16)"

text \<open>
  \<open>checksumAddress\<close> (EIP-55): of the first 40 characters after the prefix, lower-cased,
  those are put in upper case at whose position the hash of the lower-case text has a
  digit of 8 or more.
\<close>

definition checksumAddress :: "string \<Rightarrow> string" where
  "checksumAddress address' =
     (let hexAddress = toLowerCase (drop 2 address');
          hash = keccak256 (stringToBytes hexAddress)
      in ''0x'' @ map (\<lambda>(i, c). if i < 40 \<and> 8 \<le> hash_nibble hash i then toUpperCase_char c else c)
                     (zip [0 ..< length hexAddress] hexAddress))"



subsection \<open>decodeAbiParameters\<close>

text \<open>
  The checks \<open>decodeAbiParameters\<close> makes before it decodes: the text must be hexadecimal,
  and hold at least 32 bytes.
\<close>

definition abi_bytes :: "string \<Rightarrow> js_error + byte list" where
  "abi_bytes data =
     and_then (hexToBytes data) (\<lambda>bytes.
       if length bytes = 0 then Inl AbiDecodingZeroDataError
       else if length bytes < 32 then Inl AbiDecodingDataSizeTooSmallError
       else Inr bytes)"

text \<open>The cursor: reading \<open>n\<close> bytes at a position, and moving to a position.\<close>

definition readBytes :: "byte list \<Rightarrow> nat \<Rightarrow> nat \<Rightarrow> js_error + byte list" where
  "readBytes bytes position n =
     (if 0 < position + n \<and> position + n \<le> length bytes
      then Inr (take n (drop position bytes))
      else Inl PositionOutOfBoundsError)"

definition setPosition :: "byte list \<Rightarrow> nat \<Rightarrow> js_error + nat" where
  "setPosition bytes position =
     (if position < length bytes then Inr position else Inl PositionOutOfBoundsError)"

definition decode_uint256_viem :: "string \<Rightarrow> js_error + int" where
  "decode_uint256_viem data =
     and_then (abi_bytes data) (\<lambda>bytes.
     and_then (readBytes bytes 0 32) (\<lambda>word. Inr (bytesToBigInt word)))"

text \<open>An address is the last 20 bytes of its word; the 12 bytes before them are not looked at.\<close>

definition decode_address_viem :: "string \<Rightarrow> js_error + string" where
  "decode_address_viem data =
     and_then (abi_bytes data) (\<lambda>bytes.
     and_then (readBytes bytes 0 32) (\<lambda>word.
       Inr (checksumAddress (bytesToHex (drop (length word - 20) word)))))"

definition decode_uint256_pair_viem :: "string \<Rightarrow> js_error + int \<times> int" where
  "decode_uint256_pair_viem data =
     and_then (abi_bytes data) (\<lambda>bytes.
     and_then (readBytes bytes 0 32) (\<lambda>word0.
     and_then (setPosition bytes 32) (\<lambda>position.
     and_then (readBytes bytes position 32) (\<lambda>word1.
       Inr (bytesToBigInt word0, bytesToBigInt word1)))))"

text \<open>\<open>trim\<close> of a byte array: leading zero bytes are dropped, but not the last byte.\<close>

fun trim_bytes :: "byte list \<Rightarrow> byte list" where
  "trim_bytes (b # b' # bs) = (if b = 0 then trim_bytes (b' # bs) else b # b' # bs)"
| "trim_bytes bs = bs"

text \<open>
  A string: the first word is the offset of its length word, after which its bytes
  stand. The text is given by its bytes (its UTF-8 encoding).
\<close>

definition decode_string_viem :: "string \<Rightarrow> js_error + string" where
  "decode_string_viem data =
     and_then (abi_bytes data) (\<lambda>bytes.
     and_then (readBytes bytes 0 32) (\<lambda>word0.
     and_then (setPosition bytes (nat (bytesToBigInt word0))) (\<lambda>start.
     and_then (readBytes bytes start 32) (\<lambda>word1.
       let len = nat (bytesToBigInt word1)
       in if len = 0 then Inr []
          else and_then (readBytes bytes (start + 32) len) (\<lambda>bs.
                 Inr (bytesToString (trim_bytes bs)))))))"

section \<open>The response decoder (modules/try-decode-resp.ts)\<close>

text \<open>
  The four calls of \<open>decodeAbiParameters\<close> that \<open>decodeResp\<close> makes, each with the element
  \<open>[0]\<close> the code takes of its result: for \<open>uint256\<close>, for \<open>address\<close>, for two \<open>uint256\<close> and
  for \<open>string\<close>.
\<close>

record abi_decoder =
  decode_uint256 :: "string \<Rightarrow> js_error + int"
  decode_address :: "string \<Rightarrow> js_error + string"
  decode_uint256_pair :: "string \<Rightarrow> js_error + int \<times> int"
  decode_string :: "string \<Rightarrow> js_error + string"

definition viem :: abi_decoder where
  "viem = \<lparr>decode_uint256 = decode_uint256_viem,
            decode_address = decode_address_viem,
            decode_uint256_pair = decode_uint256_pair_viem,
            decode_string = decode_string_viem\<rparr>"

definition digit_char :: "nat \<Rightarrow> char" where
  "digit_char n = ''0123456789'' ! (n mod 10)"

fun decimal :: "nat \<Rightarrow> string" where
  "decimal n = (if n < 10 then [digit_char n] else decimal (n div 10) @ [digit_char (n mod 10)])"

text \<open>\<open>bigIntValue.toString()\<close>.\<close>

definition bigint_toString :: "int \<Rightarrow> string" where
  "bigint_toString v = (if v < 0 then CHR ''-'' # decimal (nat (- v)) else decimal (nat v))"

text \<open>
  \<open>decodeResp(_data)\<close>, with the library as a parameter. The result type shows what the
  function could let escape: \<open>Inl\<close> would be an exception that reaches the caller.
\<close>

definition decodeResp :: "abi_decoder \<Rightarrow> string \<Rightarrow> js_error + string" where
  "decodeResp lib data =
     (if length data \<le> 2 then Inr ''execution reverted''
      else
        let dataLength = length data in
        if dataLength = 66 then
          try_catch
            (and_then (decode_uint256 lib data) (\<lambda>decoded.
               let bigIntValue = decoded;
                   intToString = bigint_toString bigIntValue
               in if bigIntValue = 57005 \<or> (length intToString > 35 \<and> length intToString < 51)
                  then try_catch (decode_address lib data) (\<lambda>e. Inr intToString)
                  else Inr intToString))
            (\<lambda>e. try_catch (decode_address lib data) (\<lambda>e'. Inr ''execution reverted''))
        else if dataLength = 130 then
          try_catch
            (and_then (decode_uint256_pair lib data) (\<lambda>decoded. Inr (bigint_toString (fst decoded))))
            (\<lambda>e. Inr ''execution reverted'')
        else if dataLength = 194 then
          try_catch (decode_string lib data) (\<lambda>e. Inr ''execution reverted'')
        else if dataLength > 194 then Inr ''could not decode the response''
        else
          try_catch
            (if length data \<le> 10 then Inr ''execution reverted''
             else decode_string lib (''0x'' @ drop 10 data))
            (\<lambda>e. Inr ''execution reverted''))"

section \<open>The proxy resolver (detectProxyImplementation)\<close>














section \<open>Properties of the opcode parser\<close>

lemma push_enum: "(0x60::byte) \<le> b \<Longrightarrow> b \<le> 0x7F \<Longrightarrow> b \<in> set (map of_nat [96 ..< 128])"
proof -
  assume a: "(0x60::byte) \<le> b" "b \<le> 0x7F"
  then have "96 \<le> unat b" "unat b < 128"
    by (simp_all add: word_le_nat_alt)
  then have "unat b \<in> {96 ..< 128}" by simp
  then have "unat b \<in> set [96 ..< 128]" by (simp only: set_upt)
  then have "of_nat (unat b) \<in> (of_nat ` set [96 ..< 128] :: byte set)" by (rule imageI)
  then show ?thesis by simp
qed

lemma push_info:
  assumes "(0x60::byte) \<le> b" "b \<le> 0x7F"
  shows "startsWith (getOpcodeInfo b) ''PUSH'' \<and>
         parseInt10 (replace_first ''PUSH'' '''' (getOpcodeInfo b)) = Some (unat b - 0x5F)"
  using push_enum[OF assms]
  apply (simp add: upt_rec)
  apply (elim disjE)
  apply (simp_all add: getOpcodeInfo_def opcodeMap_def startsWith_def replace_first_def parseInt10_def is_digit_def is_space_def digit_val_def)
  done

lemma loop_body_push:
  assumes "(0x60::byte) \<le> buf ! pc" "buf ! pc \<le> 0x7F"
  shows "loop_body buf pc =
     (if pc + (unat (buf ! pc) - 0x5F) < length buf
      then (\<lparr>op_name = getOpcodeInfo (buf ! pc), op_opcode = buf ! pc, op_pc = pc,
             op_pushData = Some (buffer_slice buf (pc + 1) (pc + (unat (buf ! pc) - 0x5F) + 1))\<rparr>,
            pc + (unat (buf ! pc) - 0x5F))
      else (\<lparr>op_name = getOpcodeInfo (buf ! pc), op_opcode = buf ! pc, op_pc = pc,
             op_pushData = None\<rparr>, pc))"
  using push_info[OF assms] by (simp add: loop_body_def Let_def)

lemma loop_body_entry:
  "op_pc (fst (loop_body buf pc)) = pc \<and> op_opcode (fst (loop_body buf pc)) = buf ! pc"
  by (simp add: loop_body_def Let_def split: option.splits)

lemma loop_body_advances: "pc \<le> snd (loop_body buf pc)"
  by (simp add: loop_body_def Let_def split: option.splits)

lemma loop_chain: "\<exists>es. getOpcodes_loop buf pc ops = ops @ es \<and> chain buf pc es"
proof (induction buf pc ops rule: getOpcodes_loop.induct)
  case (1 buf pc ops)
  show ?case
  proof (cases "pc < length buf")
    case True
    from 1[OF True] obtain es where
      es: "getOpcodes_loop buf (Suc (snd (loop_body buf pc))) (ops @ [fst (loop_body buf pc)])
             = (ops @ [fst (loop_body buf pc)]) @ es"
          "chain buf (Suc (snd (loop_body buf pc))) es" by blast
    have "getOpcodes_loop buf pc ops = ops @ (fst (loop_body buf pc) # es)"
      using True es(1) by (subst getOpcodes_loop.simps) simp
    moreover have "chain buf pc (fst (loop_body buf pc) # es)"
      using True es(2) by simp
    ultimately show ?thesis by blast
  next
    case False
    then have "getOpcodes_loop buf pc ops = ops @ []"
      by (subst getOpcodes_loop.simps) simp
    moreover have "chain buf pc []" using False by simp
    ultimately show ?thesis by blast
  qed
qed

lemma chain_nth:
  "chain buf pc es \<Longrightarrow> i < length es \<Longrightarrow>
     op_pc (es ! i) < length buf \<and> es ! i = fst (loop_body buf (op_pc (es ! i))) \<and>
     (if Suc i < length es
      then op_pc (es ! Suc i) = Suc (snd (loop_body buf (op_pc (es ! i))))
      else length buf \<le> Suc (snd (loop_body buf (op_pc (es ! i)))))"
proof (induction es arbitrary: pc i)
  case Nil
  then show ?case by simp
next
  case (Cons e es)
  from Cons.prems(1) have pc: "pc < length buf" and e: "e = fst (loop_body buf pc)"
    and rest: "chain buf (Suc (snd (loop_body buf pc))) es" by simp_all
  have epc: "op_pc e = pc" using e loop_body_entry by simp
  show ?case
  proof (cases i)
    case 0
    show ?thesis
    proof (cases es)
      case Nil
      with rest 0 pc e epc show ?thesis by simp
    next
      case (Cons e' es')
      with rest have "e' = fst (loop_body buf (Suc (snd (loop_body buf pc))))" by simp
      then have "op_pc e' = Suc (snd (loop_body buf pc))" using loop_body_entry by simp
      with Cons 0 pc e epc show ?thesis by simp
    qed
  next
    case (Suc j)
    with Cons.prems(2) have "j < length es" by simp
    from Cons.IH[OF rest this] Suc show ?thesis by simp
  qed
qed



lemma getOpcodes_fresh:
  "getOpcodes \<lparr>evm_code = buf, evm_opcodes = []\<rparr> = (ops, this') \<Longrightarrow> chain buf 0 ops"
  using loop_chain[of buf 0 "[]"] by (auto simp: getOpcodes_def Let_def)

lemma chain_in_bounds:
  "chain buf pc es \<Longrightarrow>
     list_all (\<lambda>e. op_pc e < length buf \<and>
        (case op_pushData e of None \<Rightarrow> True | Some d \<Rightarrow> op_pc e + length d < length buf)) es"
proof (induction es arbitrary: pc)
  case Nil
  then show ?case by simp
next
  case (Cons e es)
  then have pc: "pc < length buf" and e: "e = fst (loop_body buf pc)"
    and rest: "chain buf (Suc (snd (loop_body buf pc))) es" by simp_all
  have "op_pc e < length buf \<and>
        (case op_pushData e of None \<Rightarrow> True | Some d \<Rightarrow> op_pc e + length d < length buf)"
    unfolding e using pc
    by (auto simp: loop_body_def Let_def buffer_slice_def split: option.splits)
  with Cons.IH[OF rest] show ?case by simp
qed




lemma run_b: "getOpcodes \<lparr>evm_code = [0x63, 0x01, 0x02], evm_opcodes = []\<rparr> =
  ([\<lparr>op_name = ''PUSH4'', op_opcode = 99, op_pc = 0, op_pushData = None\<rparr>,
   \<lparr>op_name = ''ADD'', op_opcode = 1, op_pc = 1, op_pushData = None\<rparr>,
   \<lparr>op_name = ''MUL'', op_opcode = 2, op_pc = 2, op_pushData = None\<rparr>],
  \<lparr>evm_code = [99, 1, 2],
     evm_opcodes =
       [\<lparr>op_name = ''PUSH4'', op_opcode = 99, op_pc = 0,
           op_pushData = None\<rparr>,
        \<lparr>op_name = ''ADD'', op_opcode = 1, op_pc = 1, op_pushData = None\<rparr>,
        \<lparr>op_name = ''MUL'', op_opcode = 2, op_pc = 2,
           op_pushData = None\<rparr>]\<rparr>)"
  by code_simp

text \<open>
  C2, as stated, fails: after a truncated push the loop goes on at the next byte. In the
  buffer 63 01 02 the PUSH4 at offset 0 declares four operand bytes, of which two exist;
  the entry has no immediate, and the two bytes are then decoded as ADD and MUL.
\<close>

theorem scan_truncated_push_counterexample:
  "fst (getOpcodes \<lparr>evm_code = [0x63, 0x01, 0x02], evm_opcodes = []\<rparr>) =
     [\<lparr>op_name = ''PUSH4'', op_opcode = 0x63, op_pc = 0, op_pushData = None\<rparr>,
      \<lparr>op_name = ''ADD'', op_opcode = 0x01, op_pc = 1, op_pushData = None\<rparr>,
      \<lparr>op_name = ''MUL'', op_opcode = 0x02, op_pc = 2, op_pushData = None\<rparr>]"
  by code_simp

text \<open>
  C2, amended. On a fresh parser, for every entry of the result that is a push (opcode
  0x60 .. 0x7F, operand length opcode - 0x5F) whose operand would extend past the end of
  the buffer: the entry has no immediate, and decoding resumes at the very next offset
  pc+1 (or the scan ends there, at the end of the buffer). Every entry of the result was
  read inside the buffer, its immediate included. The loop always terminates: it is a
  total function.
\<close>

theorem scan_truncated_push:
  assumes "getOpcodes \<lparr>evm_code = buf, evm_opcodes = []\<rparr> = (ops, this')"
    and "i < length ops"
    and "0x60 \<le> op_opcode (ops ! i)" and "op_opcode (ops ! i) \<le> 0x7F"
    and "length buf \<le> op_pc (ops ! i) + (unat (op_opcode (ops ! i)) - 0x5F)"
  shows "op_pushData (ops ! i) = None \<and>
         (if Suc i < length ops then op_pc (ops ! Suc i) = op_pc (ops ! i) + 1
          else length buf = op_pc (ops ! i) + 1) \<and>
         list_all (\<lambda>e. op_pc e < length buf \<and>
            (case op_pushData e of None \<Rightarrow> True | Some d \<Rightarrow> op_pc e + length d < length buf)) ops"
proof -
  let ?pc = "op_pc (ops ! i)"
  note ch = getOpcodes_fresh[OF assms(1)]
  note n = chain_nth[OF ch assms(2)]
  from n have e: "ops ! i = fst (loop_body buf ?pc)" and lt: "?pc < length buf" by simp_all
  have byte: "buf ! ?pc = op_opcode (ops ! i)"
    using e loop_body_entry[of buf ?pc] by simp
  have body: "loop_body buf ?pc =
     (\<lparr>op_name = getOpcodeInfo (buf ! ?pc), op_opcode = buf ! ?pc, op_pc = ?pc,
       op_pushData = None\<rparr>, ?pc)"
    using loop_body_push[of buf ?pc] assms(3,4,5) byte by simp
  have data: "op_pushData (ops ! i) = None"
    by (subst e) (simp add: body)
  have nxt: "Suc (snd (loop_body buf ?pc)) = ?pc + 1" by (simp add: body)
  show ?thesis
    using data n nxt lt chain_in_bounds[OF ch] by auto
qed

text \<open>The amended statement at the buffer 63 01 02.\<close>

theorem scan_truncated_push_witness:
  "op_opcode (fst (getOpcodes \<lparr>evm_code = [0x63, 0x01, 0x02], evm_opcodes = []\<rparr>) ! 0) = 0x63 \<and>
   length [0x63, 0x01, 0x02 :: byte]
     \<le> op_pc (fst (getOpcodes \<lparr>evm_code = [0x63, 0x01, 0x02], evm_opcodes = []\<rparr>) ! 0)
         + (unat (0x63 :: byte) - 0x5F) \<and>
   op_pushData (fst (getOpcodes \<lparr>evm_code = [0x63, 0x01, 0x02], evm_opcodes = []\<rparr>) ! 0) = None \<and>
   op_pc (fst (getOpcodes \<lparr>evm_code = [0x63, 0x01, 0x02], evm_opcodes = []\<rparr>) ! 1) = 1"
  using scan_truncated_push[OF run_b, of 0] by (simp add: run_b)

lemma loop_nonempty: "buf \<noteq> [] \<Longrightarrow> getOpcodes_loop buf 0 [] \<noteq> []"
proof -
  assume ne: "buf \<noteq> []"
  obtain es where es: "getOpcodes_loop buf 0 [] = [] @ es" "chain buf 0 es"
    using loop_chain[of buf 0 "[]"] by blast
  from es(2) ne have "es \<noteq> []" by (cases es) simp_all
  with es(1) show ?thesis by simp
qed

text \<open>
  C10. For non-empty bytecode a second call of \<open>getOpcodes\<close> returns the list of the first
  and leaves the object as the first call left it: the stored list is the returned one,
  it is not empty, so the second call takes the cached branch and appends nothing.
\<close>

theorem getOpcodes_idempotent:
  assumes "evm_code this \<noteq> []"
  shows "getOpcodes (snd (getOpcodes this)) = getOpcodes this \<and>
         evm_opcodes (snd (getOpcodes this)) = fst (getOpcodes this) \<and>
         fst (getOpcodes this) \<noteq> []"
proof (cases "evm_opcodes this = []")
  case True
  with loop_nonempty[OF assms] show ?thesis
    by (simp add: getOpcodes_def Let_def)
next
  case False
  then show ?thesis by (simp add: getOpcodes_def)
qed

text \<open>The theorem at the buffer 63 01 02, whose parse has three entries.\<close>

theorem getOpcodes_idempotent_witness:
  "getOpcodes (snd (getOpcodes \<lparr>evm_code = [0x63, 0x01, 0x02], evm_opcodes = []\<rparr>)) =
     getOpcodes \<lparr>evm_code = [0x63, 0x01, 0x02], evm_opcodes = []\<rparr> \<and>
   length (fst (getOpcodes (snd (getOpcodes \<lparr>evm_code = [0x63, 0x01, 0x02], evm_opcodes = []\<rparr>)))) = 3"
  using getOpcodes_idempotent[of "\<lparr>evm_code = [0x63, 0x01, 0x02], evm_opcodes = []\<rparr>"]
  by (simp add: run_b)

section \<open>Properties of the signature classification\<close>

lemma split_char_first: "\<exists>ws. split_char sep s = takeWhile (\<lambda>c. c \<noteq> sep) s # ws"
  by (induction s) auto

text \<open>
  C8, as stated, fails at the empty signature text: the guard \<open>!signature\<close> makes it
  callable, though a signature is present and does not end with "()".
\<close>

theorem callable_counterexample:
  "isCallableSignature (Some []) \<and> Some [] \<noteq> (None :: string option) \<and> \<not> endsWith [] ''()''"
  by (simp add: isCallableSignature_def endsWith_def)

text \<open>
  C8, amended. A selector is classified callable exactly when its signature is absent, is
  the empty text, or ends with "()"; and the extracted function name is the text up to
  (not including) the first "(", which is the whole signature when it has none.
\<close>

theorem callable_and_function_name:
  "isCallableSignature signature =
     (signature = None \<or> signature = Some [] \<or> (\<exists>t. signature = Some t \<and> endsWith t ''()'')) \<and>
   extractFunctionName s = takeWhile (\<lambda>c. c \<noteq> CHR ''('') s \<and>
   extractFunctionName s = (if CHR ''('' \<in> set s then takeWhile (\<lambda>c. c \<noteq> CHR ''('') s else s)"
proof -
  have a: "isCallableSignature signature =
     (signature = None \<or> signature = Some [] \<or> (\<exists>t. signature = Some t \<and> endsWith t ''()''))"
    by (cases signature) (auto simp: isCallableSignature_def)
  have b: "extractFunctionName s = takeWhile (\<lambda>c. c \<noteq> CHR ''('') s"
  proof (cases "CHR ''('' \<in> set s")
    case True
    obtain ws where "split_char (CHR ''('') s = takeWhile (\<lambda>c. c \<noteq> CHR ''('') s # ws"
      using split_char_first by blast
    with True show ?thesis by (simp add: extractFunctionName_def)
  next
    case False
    then have "takeWhile (\<lambda>c. c \<noteq> CHR ''('') s = s"
      by (auto simp: takeWhile_eq_all_conv)
    moreover have "extractFunctionName s = s"
      using False by (simp add: extractFunctionName_def)
    ultimately show ?thesis by (simp only:)
  qed
  have c: "extractFunctionName s = (if CHR ''('' \<in> set s then takeWhile (\<lambda>c. c \<noteq> CHR ''('') s else s)"
  proof (cases "CHR ''('' \<in> set s")
    case True
    with b show ?thesis by (simp only: if_True)
  next
    case False
    then show ?thesis by (simp add: extractFunctionName_def)
  qed
  from a b c show ?thesis by blast
qed

section \<open>Properties of the revert-reason normalization and of the parallel invoker\<close>










section \<open>Properties of the signature resolution\<close>





section \<open>Properties of the response decoder\<close>

lemma decodeResp_returns:
  "\<exists>s. decodeResp lib data = Inr s \<and>
     (s = ''execution reverted'' \<or> s = ''could not decode the response'' \<or>
      decode_address lib data = Inr s \<or>
      (\<exists>v. decode_uint256 lib data = Inr v \<and> s = bigint_toString v) \<or>
      (\<exists>p. decode_uint256_pair lib data = Inr p \<and> s = bigint_toString (fst p)) \<or>
      decode_string lib data = Inr s \<or>
      decode_string lib (''0x'' @ drop 10 data) = Inr s)"
proof -
  consider (empty) "length data \<le> 2"
    | (word) "length data = 66"
    | (pair) "length data = 130"
    | (str) "length data = 194"
    | (long) "length data > 194"
    | (short) "2 < length data" "length data < 194" "length data \<noteq> 66" "length data \<noteq> 130"
    by linarith
  then show ?thesis
  proof cases
    case empty
    then show ?thesis by (simp add: decodeResp_def)
  next
    case word
    then show ?thesis
      by (cases "decode_uint256 lib data"; cases "decode_address lib data")
         (simp_all add: decodeResp_def try_catch_def and_then_def Let_def)
  next
    case pair
    then show ?thesis
      by (cases "decode_uint256_pair lib data")
         (simp_all add: decodeResp_def try_catch_def and_then_def Let_def)
  next
    case str
    then show ?thesis
      by (cases "decode_string lib data")
         (simp_all add: decodeResp_def try_catch_def and_then_def Let_def)
  next
    case long
    then show ?thesis by (simp add: decodeResp_def Let_def)
  next
    case short
    then show ?thesis
      by (cases "decode_string lib (''0x'' @ drop 10 data)")
         (simp_all add: decodeResp_def try_catch_def and_then_def Let_def)
  qed
qed

text \<open>
  C5. \<open>decodeResp\<close> is total and lets no exception escape: whatever the library's
  decoders do on the data (return or throw), for every input text the result is a
  returned string, and that string is one of the two fixed literals or a value a decoder
  returned (an address, the decimal text of an integer, or a string). Empty data and the
  bare prefix give the literal "execution reverted".
\<close>

theorem decodeResp_total:
  "(\<exists>s. decodeResp lib data = Inr s \<and>
     (s = ''execution reverted'' \<or> s = ''could not decode the response'' \<or>
      decode_address lib data = Inr s \<or>
      (\<exists>v. decode_uint256 lib data = Inr v \<and> s = bigint_toString v) \<or>
      (\<exists>p. decode_uint256_pair lib data = Inr p \<and> s = bigint_toString (fst p)) \<or>
      decode_string lib data = Inr s \<or>
      decode_string lib (''0x'' @ drop 10 data) = Inr s)) \<and>
   decodeResp lib [] = Inr ''execution reverted'' \<and>
   decodeResp lib ''0x'' = Inr ''execution reverted''"
  using decodeResp_returns[of lib data] by (simp add: decodeResp_def)

lemma hex_pairs_length: "hex_pairs s = Inr bs \<Longrightarrow> length s = 2 * length bs"
  by (induction s arbitrary: bs rule: hex_pairs.induct)
     (auto split: option.splits sum.splits)

lemma hexToBytes_word:
  assumes "length data = 66" and "hexToBytes data = Inr bytes"
  shows "length bytes = 32"
proof -
  have "length (drop 2 data) = 64" using assms(1) by simp
  then have "hex_pairs (drop 2 data) = Inr bytes"
    using assms(2) by (simp add: hexToBytes_def Let_def)
  from hex_pairs_length[OF this] \<open>length (drop 2 data) = 64\<close> show ?thesis by simp
qed

lemma decoders_word:
  assumes "length data = 66" and "hexToBytes data = Inr bytes"
  shows "decode_uint256_viem data = Inr (bytesToBigInt bytes)"
    and "decode_address_viem data = Inr (checksumAddress (bytesToHex (drop 12 bytes)))"
  using hexToBytes_word[OF assms] assms(2)
  by (auto simp: decode_uint256_viem_def decode_address_viem_def abi_bytes_def and_then_def
      readBytes_def)

lemma decimal_length_le: "0 < k \<Longrightarrow> (length (decimal n) \<le> k) = (n < 10 ^ k)"
proof (induction n arbitrary: k rule: decimal.induct)
  case (1 n)
  show ?case
  proof (cases "n < 10")
    case True
    have "(10::nat) ^ 1 \<le> 10 ^ k" using 1(2) by (intro power_increasing) simp_all
    with True have "n < 10 ^ k" by simp
    moreover have "length (decimal n) = 1" using True by simp
    ultimately show ?thesis using 1(2) by simp
  next
    case False
    have len: "length (decimal n) = Suc (length (decimal (n div 10)))"
      using False by (subst decimal.simps) simp
    show ?thesis
    proof (cases "k = 1")
      case True
      with False len show ?thesis by simp
    next
      case k: False
      with 1(2) obtain j where j: "k = Suc j" "0 < j" by (cases k) auto
      have "(length (decimal (n div 10)) \<le> j) = (n div 10 < 10 ^ j)"
        using 1(1)[OF False j(2)] .
      also have "\<dots> = (n < 10 ^ j * 10)"
        by (simp add: div_less_iff_less_mult)
      finally show ?thesis using len j by (simp add: mult.commute)
    qed
  qed
qed

lemma bytesToBigInt_nonneg_aux: "0 \<le> acc \<Longrightarrow> 0 \<le> foldl (\<lambda>acc b. 256 * acc + uint (b::byte)) acc bytes"
  by (induction bytes arbitrary: acc) simp_all

lemma bytesToBigInt_nonneg: "0 \<le> bytesToBigInt bytes"
  by (simp add: bytesToBigInt_def bytesToBigInt_nonneg_aux)

lemma digits_range:
  assumes "0 \<le> v"
  shows "(35 < length (bigint_toString v) \<and> length (bigint_toString v) < 51)
           = (10 ^ 35 \<le> v \<and> v < 10 ^ 50)"
proof -
  have s: "bigint_toString v = decimal (nat v)" using assms by (simp add: bigint_toString_def)
  have a: "(length (decimal (nat v)) \<le> 35) = (nat v < 10 ^ 35)"
    by (rule decimal_length_le) simp
  have b: "(length (decimal (nat v)) \<le> 50) = (nat v < 10 ^ 50)"
    by (rule decimal_length_le) simp
  have c: "(nat v < 10 ^ 35) = (v < 10 ^ 35)" "(nat v < 10 ^ 50) = (v < 10 ^ 50)"
    using assms by (simp_all add: nat_less_iff)
  have "(35 < length (decimal (nat v))) = (\<not> v < 10 ^ 35)"
    using a c(1) by linarith
  moreover have "(length (decimal (nat v)) < 51) = (v < 10 ^ 50)"
    using b c(2) by linarith
  ultimately show ?thesis unfolding s by (simp add: not_less)
qed

lemma word_dead:
  "hexToBytes ''0x000000000000000000000000000000000000000000000000000000000000dead'' =
     Inr [0,0,0,0,0,0,0,0,0,0,0,0,0,0,0,0,0,0,0,0,0,0,0,0,0,0,0,0,0,0,0xde,0xad]"
  by code_simp

lemma word_dead_value:
  "bytesToBigInt [0,0,0,0,0,0,0,0,0,0,0,0,0,0,0,0,0,0,0,0,0,0,0,0,0,0,0,0,0,0,0xde,0xad] = 57005"
  by (simp add: bytesToBigInt_def)

lemma word_dead_hex:
  "bytesToHex (drop 12 [0,0,0,0,0,0,0,0,0,0,0,0,0,0,0,0,0,0,0,0,0,0,0,0,0,0,0,0,0,0,0xde,0xad :: byte])
     = ''0x000000000000000000000000000000000000dead''"
  by code_simp

lemma word_50:
  "hexToBytes ''0x000000000000000000000006d79f82328ea3da61e066ebb2f88a000000000000'' =
     Inr [0, 0, 0, 0, 0, 0, 0, 0, 0, 0, 0, 6, 215, 159, 130, 50, 142, 163, 218,
      97, 224, 102, 235, 178, 248, 138, 0, 0, 0, 0, 0, 0]"
  by code_simp

lemma word_50_value:
  "bytesToBigInt [0, 0, 0, 0, 0, 0, 0, 0, 0, 0, 0, 6, 215, 159, 130, 50, 142, 163, 218,
      97, 224, 102, 235, 178, 248, 138, 0, 0, 0, 0, 0, 0]
     = 10000000000000000000000000000000000000000000000000"
  by (simp add: bytesToBigInt_def)

lemma word_50_hex:
  "bytesToHex (drop 12 [0, 0, 0, 0, 0, 0, 0, 0, 0, 0, 0, 6, 215, 159, 130, 50, 142, 163, 218,
      97, 224, 102, 235, 178, 248, 138, 0, 0, 0, 0, 0, 0 :: byte])
     = ''0xd79f82328ea3da61e066ebb2f88a000000000000''"
  by code_simp

lemma checksumAddress_length: "length (checksumAddress a) = 2 + (length a - 2)"
  by (simp add: checksumAddress_def Let_def toLowerCase_def)

lemma decodeResp_word_viem:
  assumes "length data = 66" and "hexToBytes data = Inr bytes"
  shows "decodeResp viem data =
           Inr (if bytesToBigInt bytes = 57005 \<or>
                   (10 ^ 35 \<le> bytesToBigInt bytes \<and> bytesToBigInt bytes < 10 ^ 50)
                then checksumAddress (bytesToHex (drop 12 bytes))
                else bigint_toString (bytesToBigInt bytes))"
  using assms(1) decoders_word[OF assms] digits_range[OF bytesToBigInt_nonneg[of bytes]]
  by (simp add: decodeResp_def viem_def try_catch_def and_then_def Let_def)

text \<open>
  C4, as stated, fails at an integer of 50 digits: the test is "more than 35 and fewer
  than 51 digits", so the word that encodes 10^49 is decoded as an address (its last 20
  bytes), not returned as its decimal text.
\<close>

theorem decodeResp_word_counterexample:
  "length (bigint_toString 10000000000000000000000000000000000000000000000000) = 50 \<and>
   decode_uint256 viem ''0x000000000000000000000006d79f82328ea3da61e066ebb2f88a000000000000''
     = Inr 10000000000000000000000000000000000000000000000000 \<and>
   decodeResp viem ''0x000000000000000000000006d79f82328ea3da61e066ebb2f88a000000000000''
     = Inr (checksumAddress ''0xd79f82328ea3da61e066ebb2f88a000000000000'') \<and>
   checksumAddress ''0xd79f82328ea3da61e066ebb2f88a000000000000''
     \<noteq> bigint_toString 10000000000000000000000000000000000000000000000000"
proof -
  let ?v = "10000000000000000000000000000000000000000000000000 :: int"
  let ?n = "10000000000000000000000000000000000000000000000000 :: nat"
  have len: "length ''0x000000000000000000000006d79f82328ea3da61e066ebb2f88a000000000000'' = 66"
    by simp
  have le50: "length (decimal ?n) \<le> 50"
    by (subst decimal_length_le) simp_all
  have gt49: "\<not> length (decimal ?n) \<le> 49"
    by (subst decimal_length_le) simp_all
  have str: "bigint_toString ?v = decimal ?n"
    by (simp add: bigint_toString_def del: decimal.simps)
  have digits: "length (bigint_toString ?v) = 50"
    unfolding str using le50 gt49 by linarith
  have "length (checksumAddress ''0xd79f82328ea3da61e066ebb2f88a000000000000'') = 42"
    by (simp add: checksumAddress_length)
  with digits
  have ne: "checksumAddress ''0xd79f82328ea3da61e066ebb2f88a000000000000'' \<noteq> bigint_toString ?v"
    by auto
  have dec: "decode_uint256 viem ''0x000000000000000000000006d79f82328ea3da61e066ebb2f88a000000000000''
     = Inr ?v"
    using decoders_word(1)[OF len word_50, unfolded word_50_value] by (simp add: viem_def)
  have res: "decodeResp viem ''0x000000000000000000000006d79f82328ea3da61e066ebb2f88a000000000000''
     = Inr (checksumAddress ''0xd79f82328ea3da61e066ebb2f88a000000000000'')"
    using decodeResp_word_viem[OF len word_50, unfolded word_50_value word_50_hex] by simp
  from digits dec res ne show ?thesis by blast
qed

text \<open>
  C4, amended. For every 66-character hexadecimal input (one 32-byte word), with the
  library's decoders: the integer interpretation succeeds and gives the big-endian value
  of the word; exactly when that value is 57005 or its decimal text has more than 35 and
  fewer than 51 digits (36 to 50 digits: the value is at least 10^35 and below 10^50) the
  result is the checksummed address made of the last 20 bytes of the word, for which the
  address decoding always succeeds; otherwise the result is the decimal text of the value.
\<close>

theorem decodeResp_word:
  assumes "length data = 66" and "hexToBytes data = Inr bytes"
  shows "decode_uint256 viem data = Inr (bytesToBigInt bytes) \<and>
         decodeResp viem data =
           Inr (if bytesToBigInt bytes = 57005 \<or>
                   (10 ^ 35 \<le> bytesToBigInt bytes \<and> bytesToBigInt bytes < 10 ^ 50)
                then checksumAddress (bytesToHex (drop 12 bytes))
                else bigint_toString (bytesToBigInt bytes)) \<and>
         ((35 < length (bigint_toString (bytesToBigInt bytes)) \<and>
           length (bigint_toString (bytesToBigInt bytes)) < 51)
            = (10 ^ 35 \<le> bytesToBigInt bytes \<and> bytesToBigInt bytes < 10 ^ 50))"
  using decodeResp_word_viem[OF assms] decoders_word(1)[OF assms]
    digits_range[OF bytesToBigInt_nonneg[of bytes]]
  by (simp add: viem_def)

text \<open>
  The word that encodes 57005 (hexadecimal dead): the result is the checksummed form of
  the address 0x00..00dead, which is not the text "57005".
\<close>

theorem decodeResp_word_witness:
  "decodeResp viem ''0x000000000000000000000000000000000000000000000000000000000000dead''
     = Inr (checksumAddress ''0x000000000000000000000000000000000000dead'') \<and>
   checksumAddress ''0x000000000000000000000000000000000000dead'' \<noteq> ''57005''"
proof -
  have len: "length ''0x000000000000000000000000000000000000000000000000000000000000dead'' = 66"
    by simp
  have "length (checksumAddress ''0x000000000000000000000000000000000000dead'') = 42"
    by (simp add: checksumAddress_length)
  then have "checksumAddress ''0x000000000000000000000000000000000000dead'' \<noteq> ''57005''"
    by auto
  with decodeResp_word[OF len word_dead, unfolded word_dead_value word_dead_hex]
  show ?thesis by simp
qed

section \<open>Properties of the proxy resolver\<close>









end
